theory Spec2Isabelle
  imports Complex_Main "HOL-Library.AList"
begin

section \<open>The distance-matrix MCLP example of pyspatialopt\<close>

text \<open>
  A shallow embedding of \<^verbatim>\<open>examples/binary_mclp_distance_matrix.py\<close>: the coverage
  builder \<^verbatim>\<open>generate_binary_coverage_from_dist_matrix\<close> and the pipeline
  \<^verbatim>\<open>binary_mclp_distance_matrix\<close> with its result summary.

  Conventions of the model:
  \<^item> a Python \<^verbatim>\<open>dict\<close> is an association list in insertion order; a store
    \<^verbatim>\<open>d[k] = v\<close> is \<open>AList.update k v d\<close> (replace in place, or append a new key) and
    a read \<^verbatim>\<open>d[k]\<close> is \<open>getitem d k\<close>, which raises \<open>KeyError\<close> on a missing key;
  \<^item> a Python \<^verbatim>\<open>set\<close> is a HOL set;
  \<^item> a CSV row is a dict from column names to strings, as \<^verbatim>\<open>csv.DictReader\<close> yields
    it, so \<^verbatim>\<open>str(row[f])\<close> is the string itself;
  \<^item> Python's builtin \<^verbatim>\<open>float\<close> is a parameter \<open>pyfloat\<close> of the model: it
    returns \<open>None\<close> where Python raises \<open>ValueError\<close>. Floating-point numbers are
    idealised as reals: rounding, infinities and NaN are outside the model;
  \<^item> an exception is a value \<open>Inl e\<close> of a sum type, a normal result is \<open>Inr v\<close>;
  \<^item> logging calls have no effect on the results and are left out.
\<close>

subsection \<open>Exceptions, dictionaries, loops\<close>

datatype py_error =
    KeyError string
  | ValueError string
  | IndexError
  | ZeroDivisionError
  | SystemExit int

type_synonym 'v dict = "(string \<times> 'v) list"

text \<open>\<^verbatim>\<open>d[k]\<close> as an expression.\<close>

definition getitem :: "'v dict \<Rightarrow> string \<Rightarrow> py_error + 'v" where
  "getitem d k = (case map_of d k of None \<Rightarrow> Inl (KeyError k) | Some v \<Rightarrow> Inr v)"

text \<open>\<^verbatim>\<open>float(s)\<close> for a string \<open>s\<close>.\<close>

definition to_float :: "(string \<Rightarrow> real option) \<Rightarrow> string \<Rightarrow> py_error + real" where
  "to_float pyfloat s = (case pyfloat s of None \<Rightarrow> Inl (ValueError s) | Some x \<Rightarrow> Inr x)"

text \<open>\<^verbatim>\<open>xs[i]\<close> for a list and a non-negative index.\<close>

definition list_index :: "'a list \<Rightarrow> nat \<Rightarrow> py_error + 'a" where
  "list_index xs i = (if i < length xs then Inr (xs ! i) else Inl IndexError)"

text \<open>\<^verbatim>\<open>a / b\<close> on floats: Python raises on a zero divisor.\<close>

definition py_div :: "real \<Rightarrow> real \<Rightarrow> py_error + real" where
  "py_div a b = (if b = 0 then Inl ZeroDivisionError else Inr (a / b))"

text \<open>
  \<^verbatim>\<open>for x in xs: body\<close> over a state: the loop stops at the first exception.
\<close>

fun for_loop :: "('a \<Rightarrow> 's \<Rightarrow> py_error + 's) \<Rightarrow> 'a list \<Rightarrow> 's \<Rightarrow> py_error + 's" where
  "for_loop body [] s = Inr s"
| "for_loop body (x # xs) s =
     (case body x s of Inl e \<Rightarrow> Inl e | Inr s' \<Rightarrow> for_loop body xs s')"

subsection \<open>The coverage object\<close>

type_synonym csv_row = "string dict"

text \<open>
  One value of \<^verbatim>\<open>output["demand"]\<close>. Its \<open>coverage\<close> maps the facility variable name
  to a dict whose keys are the covering facility ids (every value is \<open>1\<close>).
\<close>

record demand_obj =
  area :: int
  demand :: real
  serviceableDemand :: real
  coverage :: "nat dict dict"

text \<open>
  The dictionary \<^verbatim>\<open>output\<close>. \<open>type_mode\<close> and \<open>type_type\<close> are the two entries of
  \<^verbatim>\<open>output["type"]\<close>. The source fills \<^verbatim>\<open>output["facilities"][name]\<close> with a list by
  iterating a set, in an order Python leaves open: the model keeps the ids as a set.
\<close>

record dict_coverage =
  version :: string
  type_mode :: string
  type_type :: string
  demand_dict :: "demand_obj dict"
  totalDemand :: real
  totalServiceableDemand :: real
  facilities :: "string set dict"

subsection \<open>\<^verbatim>\<open>generate_binary_coverage_from_dist_matrix\<close>\<close>

text \<open>Lines 53 to 58: the entry of a demand id seen for the first time.\<close>

definition new_demand_obj :: "string \<Rightarrow> real \<Rightarrow> demand_obj" where
  "new_demand_obj fl_variable_name x =
     \<lparr>area = 0, demand = x, serviceableDemand = 0, coverage = [(fl_variable_name, [])]\<rparr>"

text \<open>
  Lines 48 to 59, the body of the first loop. The state is
  \<open>(set_facility_id, set_demand_id, output["demand"])\<close>.
\<close>

definition init_row ::
  "(string \<Rightarrow> real option) \<Rightarrow> string \<Rightarrow> string \<Rightarrow> string \<Rightarrow> string \<Rightarrow> csv_row \<Rightarrow>
   string set \<times> string set \<times> demand_obj dict \<Rightarrow>
   py_error + string set \<times> string set \<times> demand_obj dict" where
  "init_row pyfloat dl_id_field fl_id_field demand_field fl_variable_name row st =
     (case st of (set_facility_id, set_demand_id, dem) \<Rightarrow>
      case getitem row fl_id_field of Inl e \<Rightarrow> Inl e | Inr facility_id \<Rightarrow>
      case getitem row dl_id_field of Inl e \<Rightarrow> Inl e | Inr new_demand_id \<Rightarrow>
        if new_demand_id \<notin> set_demand_id then
          (case getitem row demand_field of Inl e \<Rightarrow> Inl e | Inr w \<Rightarrow>
           case to_float pyfloat w of Inl e \<Rightarrow> Inl e | Inr x \<Rightarrow>
             Inr (insert facility_id set_facility_id,
                  insert new_demand_id set_demand_id,
                  AList.update new_demand_id (new_demand_obj fl_variable_name x) dem))
        else Inr (insert facility_id set_facility_id, set_demand_id, dem))"

text \<open>
  Lines 68 to 74, the body of the second loop, on \<^verbatim>\<open>output["demand"]\<close>. The
  comparison with the threshold is \<open>\<le>\<close>. Line 72 copies the entry's own demand into
  its serviceable demand; line 74 stores the facility id as a key of the entry's
  coverage under the facility variable name.
\<close>

definition cover_row ::
  "(string \<Rightarrow> real option) \<Rightarrow> real \<Rightarrow> string \<Rightarrow> string \<Rightarrow> string \<Rightarrow> string \<Rightarrow> csv_row \<Rightarrow>
   demand_obj dict \<Rightarrow> py_error + demand_obj dict" where
  "cover_row pyfloat dist_threshold dl_id_field fl_id_field distance_field fl_variable_name row dem =
     (case getitem row distance_field of Inl e \<Rightarrow> Inl e | Inr s \<Rightarrow>
      case to_float pyfloat s of Inl e \<Rightarrow> Inl e | Inr x \<Rightarrow>
        if x \<le> dist_threshold then
          (case getitem row dl_id_field of Inl e \<Rightarrow> Inl e | Inr demand_id \<Rightarrow>
           case getitem dem demand_id of Inl e \<Rightarrow> Inl e | Inr obj \<Rightarrow>
             let obj1 = obj\<lparr>serviceableDemand := demand obj\<rparr> in
             (case getitem (coverage obj1) fl_variable_name of Inl e \<Rightarrow> Inl e | Inr cov \<Rightarrow>
              case getitem row fl_id_field of Inl e \<Rightarrow> Inl e | Inr facility_id \<Rightarrow>
                Inr (AList.update demand_id
                       (obj1\<lparr>coverage :=
                          AList.update fl_variable_name (AList.update facility_id 1 cov)
                            (coverage obj1)\<rparr>) dem)))
        else Inr dem)"

text \<open>
  Lines 77 to 79, the summary loop over the values of \<^verbatim>\<open>output["demand"]\<close>. The state
  is \<open>(totalServiceableDemand, totalDemand)\<close>.
\<close>

fun summary_loop :: "demand_obj dict \<Rightarrow> real \<times> real \<Rightarrow> real \<times> real" where
  "summary_loop [] tot = tot"
| "summary_loop ((k, row) # items) (ts, td) =
     summary_loop items (ts + serviceableDemand row, td + demand row)"

text \<open>
  The same loop with the addition of lines 78 and 79 as a parameter. Python adds
  floating-point numbers, and the sum is rounded; \<open>summary_loop\<close> is this loop with the
  exact addition. What is stated of the two totals is proved of this loop for every
  addition that is monotone in both arguments, as a rounded addition is.
\<close>

fun summary_loop_with ::
  "(real \<Rightarrow> real \<Rightarrow> real) \<Rightarrow> demand_obj dict \<Rightarrow> real \<times> real \<Rightarrow> real \<times> real" where
  "summary_loop_with add [] tot = tot"
| "summary_loop_with add ((k, row) # items) (ts, td) =
     summary_loop_with add items (add ts (serviceableDemand row), add td (demand row))"

text \<open>Lines 28 and 29: the facility variable name, \<^verbatim>\<open>"facility"\<close> when none is given.\<close>

definition fl_variable_name_of :: "string option \<Rightarrow> string" where
  "fl_variable_name_of fl_variable_name_arg =
     (case fl_variable_name_arg of None \<Rightarrow> ''facility'' | Some n \<Rightarrow> n)"

text \<open>
  The function: the dictionary of lines 33 to 44, the three loops, and the result. The
  loop of lines 62 and 63 copies \<open>set_facility_id\<close> into \<^verbatim>\<open>output["facilities"]\<close>.
\<close>

definition generate_binary_coverage_from_dist_matrix ::
  "(string \<Rightarrow> real option) \<Rightarrow> csv_row list \<Rightarrow> real \<Rightarrow> string \<Rightarrow> string \<Rightarrow> string \<Rightarrow> string \<Rightarrow>
   string option \<Rightarrow> py_error + dict_coverage" where
  "generate_binary_coverage_from_dist_matrix pyfloat list_dict_facility_demand_distance
      dist_threshold dl_id_field fl_id_field demand_field distance_field fl_variable_name_arg =
     (let fl_variable_name = fl_variable_name_of fl_variable_name_arg in
      case for_loop (init_row pyfloat dl_id_field fl_id_field demand_field fl_variable_name)
             list_dict_facility_demand_distance ({}, {}, []) of
        Inl e \<Rightarrow> Inl e
      | Inr (set_facility_id, set_demand_id, dem0) \<Rightarrow>
      case for_loop (cover_row pyfloat dist_threshold dl_id_field fl_id_field distance_field
                       fl_variable_name)
             list_dict_facility_demand_distance dem0 of
        Inl e \<Rightarrow> Inl e
      | Inr dem \<Rightarrow>
          (case summary_loop dem (0, 0) of (ts, td) \<Rightarrow>
             Inr \<lparr>version = ''1'', type_mode = ''coverage'', type_type = ''binary'',
                  demand_dict = dem, totalDemand = td, totalServiceableDemand = ts,
                  facilities = [(fl_variable_name, set_facility_id)]\<rparr>))"

subsection \<open>\<^verbatim>\<open>binary_mclp_distance_matrix\<close>\<close>

text \<open>The record \<^verbatim>\<open>result_coverage\<close> of lines 142 to 147.\<close>

record result_coverage =
  number_facility :: int
  number_facility_chosen :: nat
  set_facility_id_chosen :: "string set"
  total_demand :: real
  percent_demand_coverage :: real

text \<open>
  Lines 102 to 105: the first required field that is not a key of the sample row, if
  there is one.
\<close>

fun missing_field :: "string list \<Rightarrow> csv_row \<Rightarrow> string option" where
  "missing_field [] item = None"
| "missing_field (field # rest) item =
     (if field \<notin> set (map fst item) then Some field else missing_field rest item)"

text \<open>
  Lines 131 to 136: the demand covered by the chosen facilities. The coverage is read
  under the literal key \<^verbatim>\<open>"facility"\<close>, as the source does.
\<close>

fun covered_loop :: "string set \<Rightarrow> demand_obj dict \<Rightarrow> real \<Rightarrow> py_error + real" where
  "covered_loop chosen [] total_demand_covered = Inr total_demand_covered"
| "covered_loop chosen ((demand_id, obj) # items) total_demand_covered =
     (case getitem (coverage obj) ''facility'' of
        Inl e \<Rightarrow> Inl e
      | Inr cov \<Rightarrow>
          if \<not> (chosen \<inter> set (map fst cov) = {})
          then covered_loop chosen items (total_demand_covered + demand obj)
          else covered_loop chosen items total_demand_covered)"

text \<open>
  Lines 125 to 148, the result summary: from the ids the solver returned, the coverage
  object and the requested number of facilities to the result record.
\<close>

definition result_summary ::
  "string list \<Rightarrow> dict_coverage \<Rightarrow> int \<Rightarrow> py_error + result_coverage" where
  "result_summary ids dict_cov num_facility =
     (let chosen = set ids in
      case covered_loop chosen (demand_dict dict_cov) 0 of
        Inl e \<Rightarrow> Inl e
      | Inr total_demand_covered \<Rightarrow>
      case py_div (100 * total_demand_covered) (totalDemand dict_cov) of
        Inl e \<Rightarrow> Inl e
      | Inr percent \<Rightarrow>
          Inr \<lparr>number_facility = num_facility,
               number_facility_chosen = card chosen,
               set_facility_id_chosen = chosen,
               total_demand = totalDemand dict_cov,
               percent_demand_coverage = percent\<rparr>)"

text \<open>
  The function itself. Its parameters beyond the source's: \<open>pyfloat\<close>; \<open>solve\<close>, the
  external collaborators of lines 112 to 125 (\<^verbatim>\<open>covering.create_mclp_model\<close>, the GLPK
  solver and \<^verbatim>\<open>utilities.get_ids\<close>), from the coverage object, the number of facilities
  and the facility variable name to the chosen ids; and the rows that
  \<^verbatim>\<open>csv.DictReader\<close> loaded from the file (lines 95 to 97). The result is the text
  printed and the outcome; \<^verbatim>\<open>sys.exit(0)\<close> is the exception \<open>SystemExit 0\<close>.
\<close>

definition binary_mclp_distance_matrix ::
  "(string \<Rightarrow> real option) \<Rightarrow> (dict_coverage \<Rightarrow> int \<Rightarrow> string \<Rightarrow> string list) \<Rightarrow>
   csv_row list \<Rightarrow> real \<Rightarrow> int \<Rightarrow> string list \<Rightarrow> string \<Rightarrow>
   string list \<times> (py_error + result_coverage)" where
  "binary_mclp_distance_matrix pyfloat solve dict_pairwise_distance service_dist num_facility
      list_field_req facility_variable_name =
     (case list_index dict_pairwise_distance 1 of
        Inl e \<Rightarrow> ([], Inl e)
      | Inr item_pairwise_distance \<Rightarrow>
      case missing_field list_field_req item_pairwise_distance of
        Some field \<Rightarrow>
          ([''Error: this field '' @ field @ '' not found in the distance csv''],
           Inl (SystemExit 0))
      | None \<Rightarrow>
      case generate_binary_coverage_from_dist_matrix pyfloat dict_pairwise_distance
             service_dist ''demand_id'' ''facility_id'' ''demand'' ''distance''
             (Some facility_variable_name) of
        Inl e \<Rightarrow> ([], Inl e)
      | Inr dict_cov \<Rightarrow>
          ([], result_summary (solve dict_cov num_facility facility_variable_name)
                 dict_cov num_facility))"

text \<open>The default of \<^verbatim>\<open>list_field_req\<close>.\<close>

definition list_field_req_default :: "string list" where
  "list_field_req_default = [''facility_id'', ''demand_id'', ''demand'', ''distance'']"

subsection \<open>Vocabulary of the statements\<close>

text \<open>
  A row is within the threshold when its distance field parses to a number that is at
  most the threshold.
\<close>

definition within_threshold :: "(string \<Rightarrow> real option) \<Rightarrow> string \<Rightarrow> real \<Rightarrow> csv_row \<Rightarrow> bool" where
  "within_threshold pyfloat distance_field dist_threshold row =
     (case map_of row distance_field of
        None \<Rightarrow> False
      | Some s \<Rightarrow> (case pyfloat s of None \<Rightarrow> False | Some x \<Rightarrow> x \<le> dist_threshold))"

text \<open>
  What one demand unit contributes to the covered demand: its full weight when a chosen
  facility is among the keys of its coverage under \<^verbatim>\<open>"facility"\<close>, and nothing otherwise.
\<close>

definition covered_weight :: "string set \<Rightarrow> demand_obj \<Rightarrow> real" where
  "covered_weight chosen obj =
     (case map_of (coverage obj) ''facility'' of
        None \<Rightarrow> 0
      | Some cov \<Rightarrow> if chosen \<inter> set (map fst cov) = {} then 0 else demand obj)"

subsection \<open>Concrete inputs\<close>

text \<open>
  A CSV row with the four default columns, and the values of \<^verbatim>\<open>float\<close> on the numerals
  the examples use.
\<close>

definition csv_record :: "string \<Rightarrow> string \<Rightarrow> string \<Rightarrow> string \<Rightarrow> csv_row" where
  "csv_record f d w x =
     [(''facility_id'', f), (''demand_id'', d), (''demand'', w), (''distance'', x)]"

definition example_float :: "string \<Rightarrow> real option" where
  "example_float =
     map_of [(''0'', 0), (''-5'', - 5), (''5'', 5), (''7'', 7), (''10'', 10),
             (''4000'', 4000), (''5000'', 5000), (''6000'', 6000)]"

text \<open>The rows \<^verbatim>\<open>[(F1,D1,10,4000),(F2,D1,10,6000),(F1,D2,5,4000)]\<close> of the specification.\<close>

definition example_rows :: "csv_row list" where
  "example_rows =
     [csv_record ''F1'' ''D1'' ''10'' ''4000'',
      csv_record ''F2'' ''D1'' ''10'' ''6000'',
      csv_record ''F1'' ''D2'' ''5'' ''4000'']"

text \<open>The coverage object the builder returns on these rows with threshold \<open>5000\<close>.\<close>

definition example_coverage :: dict_coverage where
  "example_coverage =
     \<lparr>version = ''1'', type_mode = ''coverage'', type_type = ''binary'',
      demand_dict =
        [(''D1'', \<lparr>area = 0, demand = 10, serviceableDemand = 10,
                  coverage = [(''facility'', [(''F1'', 1)])]\<rparr>),
         (''D2'', \<lparr>area = 0, demand = 5, serviceableDemand = 5,
                  coverage = [(''facility'', [(''F1'', 1)])]\<rparr>)],
      totalDemand = 15, totalServiceableDemand = 15,
      facilities = [(''facility'', {''F1'', ''F2''})]\<rparr>"

text \<open>
  Two rows of one demand unit with different weights: the first at a distance equal to
  the threshold \<open>5000\<close>, the second beyond it. Then what the builder returns on them.
\<close>

definition duplicate_rows :: "csv_row list" where
  "duplicate_rows =
     [csv_record ''F1'' ''D1'' ''10'' ''5000'',
      csv_record ''F2'' ''D1'' ''7'' ''6000'']"

definition duplicate_obj :: demand_obj where
  "duplicate_obj =
     \<lparr>area = 0, demand = 10, serviceableDemand = 10,
      coverage = [(''facility'', [(''F1'', 1)])]\<rparr>"

definition duplicate_coverage :: dict_coverage where
  "duplicate_coverage =
     \<lparr>version = ''1'', type_mode = ''coverage'', type_type = ''binary'',
      demand_dict = [(''D1'', duplicate_obj)],
      totalDemand = 10, totalServiceableDemand = 10,
      facilities = [(''facility'', {''F1'', ''F2''})]\<rparr>"

text \<open>
  Two demand units of weight \<open>0\<close>, both beyond the threshold \<open>5000\<close>, and what the builder
  returns on them.
\<close>

definition zero_rows :: "csv_row list" where
  "zero_rows =
     [csv_record ''F1'' ''D1'' ''0'' ''6000'',
      csv_record ''F1'' ''D2'' ''0'' ''6000'']"

definition zero_coverage :: dict_coverage where
  "zero_coverage =
     \<lparr>version = ''1'', type_mode = ''coverage'', type_type = ''binary'',
      demand_dict =
        [(''D1'', \<lparr>area = 0, demand = 0, serviceableDemand = 0,
                  coverage = [(''facility'', [])]\<rparr>),
         (''D2'', \<lparr>area = 0, demand = 0, serviceableDemand = 0,
                  coverage = [(''facility'', [])]\<rparr>)],
      totalDemand = 0, totalServiceableDemand = 0,
      facilities = [(''facility'', {''F1''})]\<rparr>"

text \<open>One demand unit of weight \<open>-5\<close> beyond the threshold, and what the builder returns.\<close>

definition negative_rows :: "csv_row list" where
  "negative_rows = [csv_record ''F1'' ''D1'' ''-5'' ''6000'']"

definition negative_coverage :: dict_coverage where
  "negative_coverage =
     \<lparr>version = ''1'', type_mode = ''coverage'', type_type = ''binary'',
      demand_dict =
        [(''D1'', \<lparr>area = 0, demand = - 5, serviceableDemand = 0,
                  coverage = [(''facility'', [])]\<rparr>)],
      totalDemand = - 5, totalServiceableDemand = 0,
      facilities = [(''facility'', {''F1''})]\<rparr>"

text \<open>Two rows of a CSV file that has no \<^verbatim>\<open>distance\<close> column.\<close>

definition no_distance_rows :: "csv_row list" where
  "no_distance_rows =
     [[(''facility_id'', ''F1''), (''demand_id'', ''D1''), (''demand'', ''10'')],
      [(''facility_id'', ''F2''), (''demand_id'', ''D1''), (''demand'', ''10'')]]"

text \<open>A solver that chooses the one facility \<^verbatim>\<open>F1\<close>.\<close>

definition solve_F1 :: "dict_coverage \<Rightarrow> int \<Rightarrow> string \<Rightarrow> string list" where
  "solve_F1 dict_cov num_facility facility_variable_name = [''F1'']"

text \<open>The builder with the default field names of the source.\<close>

definition build_default :: "csv_row list \<Rightarrow> real \<Rightarrow> py_error + dict_coverage" where
  "build_default rows dist_threshold =
     generate_binary_coverage_from_dist_matrix example_float rows dist_threshold
       ''demand_id'' ''facility_id'' ''demand'' ''distance'' None"

section \<open>Properties of the coverage builder\<close>

subsection \<open>Reads that succeed\<close>

lemma getitem_Inr: "getitem d k = Inr v \<longleftrightarrow> map_of d k = Some v"
  by (simp add: getitem_def split: option.splits)

lemma to_float_Inr: "to_float pyfloat s = Inr x \<longleftrightarrow> pyfloat s = Some x"
  by (simp add: to_float_def split: option.splits)

lemma within_threshold_iff:
  "within_threshold pyfloat xf thr row \<longleftrightarrow>
     (\<exists>s x. map_of row xf = Some s \<and> pyfloat s = Some x \<and> x \<le> thr)"
  by (auto simp: within_threshold_def split: option.splits)

lemma update_keys_mem: "map_of al k = Some v \<Longrightarrow> map fst (AList.update k w al) = map fst al"
  by (auto simp: update_keys dest: map_of_SomeD intro: rev_image_eqI)

lemma distinct_count_key:
  "distinct (map fst al) \<Longrightarrow>
   length (filter (\<lambda>kv. fst kv = k) al) = (if k \<in> fst ` set al then 1 else 0)"
  by (induction al) (auto simp: image_iff)

subsection \<open>The first loop: one entry per demand id, from its first row\<close>

lemma init_row_Inr:
  assumes "init_row pyfloat dl fl df nm row (F, D, dem) = Inr (F', D', dem')"
  shows "\<exists>f d. map_of row fl = Some f \<and> map_of row dl = Some d \<and> F' = insert f F \<and>
           D' = insert d D \<and>
           (if d \<in> D then dem' = dem
            else \<exists>w x. map_of row df = Some w \<and> pyfloat w = Some x \<and>
                   dem' = AList.update d (new_demand_obj nm x) dem)"
  using assms
  by (auto simp: init_row_def getitem_Inr to_float_Inr new_demand_obj_def
      split: sum.splits if_splits)

lemma init_loop_keys:
  assumes "for_loop (init_row pyfloat dl fl df nm) rows (F, D, dem) = Inr (F', D', dem')"
      and "D = fst ` set dem"
  shows "D' = fst ` set dem' \<and> D' = D \<union> {d. \<exists>row\<in>set rows. map_of row dl = Some d} \<and>
         (distinct (map fst dem) \<longrightarrow> distinct (map fst dem'))"
  using assms
proof (induction rows arbitrary: F D dem)
  case Nil
  then show ?case by auto
next
  case (Cons row rows)
  from Cons.prems(1) obtain F1 D1 dem1 where
    step: "init_row pyfloat dl fl df nm row (F, D, dem) = Inr (F1, D1, dem1)" and
    rest: "for_loop (init_row pyfloat dl fl df nm) rows (F1, D1, dem1) = Inr (F', D', dem')"
    by (auto split: sum.splits)
  from init_row_Inr[OF step] obtain f d where
    fd: "map_of row fl = Some f" "map_of row dl = Some d" "D1 = insert d D" and
    upd: "if d \<in> D then dem1 = dem
          else \<exists>w x. map_of row df = Some w \<and> pyfloat w = Some x \<and>
                 dem1 = AList.update d (new_demand_obj nm x) dem"
    by blast
  have k1: "D1 = fst ` set dem1"
  proof (cases "d \<in> D")
    case True
    with upd fd(3) Cons.prems(2) show ?thesis by (simp add: insert_absorb)
  next
    case False
    with upd obtain x where "dem1 = AList.update d (new_demand_obj nm x) dem" by auto
    with fd(3) Cons.prems(2) show ?thesis by (simp add: dom_update)
  qed
  have d1: "distinct (map fst dem) \<longrightarrow> distinct (map fst dem1)"
    using upd by (auto simp: distinct_update split: if_splits)
  from Cons.IH[OF rest k1] d1 fd show ?case by auto
qed


lemma init_loop_old:
  assumes "for_loop (init_row pyfloat dl fl df nm) rows (F, D, dem) = Inr (F', D', dem')"
      and "D = fst ` set dem" and "d \<in> D"
  shows "map_of dem' d = map_of dem d"
  using assms
proof (induction rows arbitrary: F D dem)
  case Nil
  then show ?case by auto
next
  case (Cons row rows)
  from Cons.prems(1) obtain F1 D1 dem1 where
    step: "init_row pyfloat dl fl df nm row (F, D, dem) = Inr (F1, D1, dem1)" and
    rest: "for_loop (init_row pyfloat dl fl df nm) rows (F1, D1, dem1) = Inr (F', D', dem')"
    by (auto split: sum.splits)
  from init_loop_keys[of pyfloat dl fl df nm "[row]" F D dem F1 D1 dem1] step Cons.prems(2)
  have k1: "D1 = fst ` set dem1" by simp
  from init_row_Inr[OF step] obtain d0 where
    d0: "map_of row dl = Some d0" "D1 = insert d0 D" and
    upd: "if d0 \<in> D then dem1 = dem
          else \<exists>w x. map_of row df = Some w \<and> pyfloat w = Some x \<and>
                 dem1 = AList.update d0 (new_demand_obj nm x) dem"
    by blast
  from Cons.prems(3) d0 have "d \<in> D1" by simp
  from Cons.IH[OF rest k1 this] have "map_of dem' d = map_of dem1 d" .
  moreover have "map_of dem1 d = map_of dem d"
    using upd Cons.prems(3) by (auto simp: update_conv' split: if_splits)
  ultimately show ?case by simp
qed

lemma init_loop_new:
  assumes "for_loop (init_row pyfloat dl fl df nm) rows (F, D, dem) = Inr (F', D', dem')"
      and "D = fst ` set dem" and "d \<notin> D" and "map_of dem' d = Some obj"
  shows "\<exists>row w x. find (\<lambda>r. map_of r dl = Some d) rows = Some row \<and>
           map_of row df = Some w \<and> pyfloat w = Some x \<and> obj = new_demand_obj nm x"
  using assms
proof (induction rows arbitrary: F D dem)
  case Nil
  then show ?case by (force dest: map_of_SomeD)
next
  case (Cons row rows)
  from Cons.prems(1) obtain F1 D1 dem1 where
    step: "init_row pyfloat dl fl df nm row (F, D, dem) = Inr (F1, D1, dem1)" and
    rest: "for_loop (init_row pyfloat dl fl df nm) rows (F1, D1, dem1) = Inr (F', D', dem')"
    by (auto split: sum.splits)
  from init_loop_keys[of pyfloat dl fl df nm "[row]" F D dem F1 D1 dem1] step Cons.prems(2)
  have k1: "D1 = fst ` set dem1" by simp
  from init_row_Inr[OF step] obtain d0 where
    d0: "map_of row dl = Some d0" "D1 = insert d0 D" and
    upd: "if d0 \<in> D then dem1 = dem
          else \<exists>w x. map_of row df = Some w \<and> pyfloat w = Some x \<and>
                 dem1 = AList.update d0 (new_demand_obj nm x) dem"
    by blast
  show ?case
  proof (cases "d = d0")
    case True
    with d0 have "d \<in> D1" by simp
    from init_loop_old[OF rest k1 this] Cons.prems(4) have "map_of dem1 d = Some obj" by simp
    with upd True Cons.prems(3) d0(1) show ?thesis
      by (auto simp: update_conv')
  next
    case False
    with d0 Cons.prems(3) have "d \<notin> D1" by simp
    from Cons.IH[OF rest k1 this Cons.prems(4)] False d0(1) show ?thesis by auto
  qed
qed

subsection \<open>The second loop: serviceable demand and coverage\<close>

lemma cover_row_Inr:
  assumes "cover_row pyfloat thr dl fl xf nm row dem = Inr dem1"
  shows "if within_threshold pyfloat xf thr row then
           \<exists>d obj cov f. map_of row dl = Some d \<and> map_of dem d = Some obj \<and>
             map_of (coverage obj) nm = Some cov \<and> map_of row fl = Some f \<and>
             dem1 = AList.update d
                      (obj\<lparr>serviceableDemand := demand obj,
                           coverage := AList.update nm (AList.update f 1 cov) (coverage obj)\<rparr>) dem
         else dem1 = dem"
  using assms
  by (auto simp: cover_row_def within_threshold_def getitem_Inr to_float_Inr Let_def
      split: sum.splits if_splits option.splits)

lemma cover_row_entry:
  assumes "cover_row pyfloat thr dl fl xf nm row dem = Inr dem1"
  shows "map fst dem1 = map fst dem"
    and "map_of dem d = Some obj \<Longrightarrow>
         \<exists>obj1. map_of dem1 d = Some obj1 \<and> area obj1 = area obj \<and> demand obj1 = demand obj \<and>
           serviceableDemand obj1 =
             (if map_of row dl = Some d \<and> within_threshold pyfloat xf thr row
              then demand obj else serviceableDemand obj) \<and>
           map fst (coverage obj1) = map fst (coverage obj) \<and>
           (\<forall>cov. map_of (coverage obj) nm = Some cov \<longrightarrow>
              (\<exists>cov1. map_of (coverage obj1) nm = Some cov1 \<and>
                 fst ` set cov1 = fst ` set cov \<union>
                   {f. map_of row dl = Some d \<and> within_threshold pyfloat xf thr row \<and>
                       map_of row fl = Some f}))"
proof -
  show "map fst dem1 = map fst dem"
    using cover_row_Inr[OF assms] by (auto simp: update_keys_mem split: if_splits)
next
  assume obj: "map_of dem d = Some obj"
  show "\<exists>obj1. map_of dem1 d = Some obj1 \<and> area obj1 = area obj \<and> demand obj1 = demand obj \<and>
           serviceableDemand obj1 =
             (if map_of row dl = Some d \<and> within_threshold pyfloat xf thr row
              then demand obj else serviceableDemand obj) \<and>
           map fst (coverage obj1) = map fst (coverage obj) \<and>
           (\<forall>cov. map_of (coverage obj) nm = Some cov \<longrightarrow>
              (\<exists>cov1. map_of (coverage obj1) nm = Some cov1 \<and>
                 fst ` set cov1 = fst ` set cov \<union>
                   {f. map_of row dl = Some d \<and> within_threshold pyfloat xf thr row \<and>
                       map_of row fl = Some f}))"
  proof (cases "within_threshold pyfloat xf thr row")
    case False
    with cover_row_Inr[OF assms] obj show ?thesis by simp
  next
    case True
    with cover_row_Inr[OF assms] obtain d0 obj0 cov0 f where
      h: "map_of row dl = Some d0" "map_of dem d0 = Some obj0"
         "map_of (coverage obj0) nm = Some cov0" "map_of row fl = Some f"
         "dem1 = AList.update d0
                      (obj0\<lparr>serviceableDemand := demand obj0,
                           coverage := AList.update nm (AList.update f 1 cov0) (coverage obj0)\<rparr>) dem"
      by auto
    show ?thesis
    proof (cases "d = d0")
      case False
      with h obj True show ?thesis by (simp add: update_conv')
    next
      case same: True
      with h obj have "obj0 = obj" by simp
      with h obj True same show ?thesis
        by (simp add: update_conv' update_keys_mem dom_update)
    qed
  qed
qed


lemma cover_loop_keys:
  assumes "for_loop (cover_row pyfloat thr dl fl xf nm) rows dem = Inr dem'"
  shows "map fst dem' = map fst dem"
  using assms
proof (induction rows arbitrary: dem)
  case Nil
  then show ?case by simp
next
  case (Cons row rows)
  from Cons.prems obtain dem1 where
    step: "cover_row pyfloat thr dl fl xf nm row dem = Inr dem1" and
    rest: "for_loop (cover_row pyfloat thr dl fl xf nm) rows dem1 = Inr dem'"
    by (auto split: sum.splits)
  from Cons.IH[OF rest] cover_row_entry(1)[OF step] show ?case by simp
qed

lemma cover_loop_entry:
  assumes "for_loop (cover_row pyfloat thr dl fl xf nm) rows dem = Inr dem'"
      and "map_of dem d = Some obj"
  shows "\<exists>obj'. map_of dem' d = Some obj' \<and> area obj' = area obj \<and> demand obj' = demand obj \<and>
           serviceableDemand obj' =
             (if \<exists>row\<in>set rows. map_of row dl = Some d \<and> within_threshold pyfloat xf thr row
              then demand obj else serviceableDemand obj) \<and>
           map fst (coverage obj') = map fst (coverage obj) \<and>
           (\<forall>cov. map_of (coverage obj) nm = Some cov \<longrightarrow>
              (\<exists>cov'. map_of (coverage obj') nm = Some cov' \<and>
                 fst ` set cov' = fst ` set cov \<union>
                   {f. \<exists>row\<in>set rows. map_of row dl = Some d \<and>
                         within_threshold pyfloat xf thr row \<and> map_of row fl = Some f}))"
  using assms
proof (induction rows arbitrary: dem obj)
  case Nil
  then show ?case by simp
next
  case (Cons row rows)
  from Cons.prems(1) obtain dem1 where
    step: "cover_row pyfloat thr dl fl xf nm row dem = Inr dem1" and
    rest: "for_loop (cover_row pyfloat thr dl fl xf nm) rows dem1 = Inr dem'"
    by (auto split: sum.splits)
  from cover_row_entry(2)[OF step Cons.prems(2)] obtain obj1 where
    o1: "map_of dem1 d = Some obj1" "area obj1 = area obj" "demand obj1 = demand obj"
        "serviceableDemand obj1 =
             (if map_of row dl = Some d \<and> within_threshold pyfloat xf thr row
              then demand obj else serviceableDemand obj)"
        "map fst (coverage obj1) = map fst (coverage obj)" and
    c1: "\<And>cov. map_of (coverage obj) nm = Some cov \<Longrightarrow>
              \<exists>cov1. map_of (coverage obj1) nm = Some cov1 \<and>
                 fst ` set cov1 = fst ` set cov \<union>
                   {f. map_of row dl = Some d \<and> within_threshold pyfloat xf thr row \<and>
                       map_of row fl = Some f}"
    by blast
  from Cons.IH[OF rest o1(1)] obtain obj' where
    o2: "map_of dem' d = Some obj'" "area obj' = area obj1" "demand obj' = demand obj1"
        "serviceableDemand obj' =
             (if \<exists>row\<in>set rows. map_of row dl = Some d \<and> within_threshold pyfloat xf thr row
              then demand obj1 else serviceableDemand obj1)"
        "map fst (coverage obj') = map fst (coverage obj1)" and
    c2: "\<And>cov. map_of (coverage obj1) nm = Some cov \<Longrightarrow>
              \<exists>cov'. map_of (coverage obj') nm = Some cov' \<and>
                 fst ` set cov' = fst ` set cov \<union>
                   {f. \<exists>row\<in>set rows. map_of row dl = Some d \<and>
                         within_threshold pyfloat xf thr row \<and> map_of row fl = Some f}"
    by blast
  have cov: "\<exists>cov'. map_of (coverage obj') nm = Some cov' \<and>
                 fst ` set cov' = fst ` set cov \<union>
                   {f. \<exists>r\<in>set (row # rows). map_of r dl = Some d \<and>
                         within_threshold pyfloat xf thr r \<and> map_of r fl = Some f}"
    if "map_of (coverage obj) nm = Some cov" for cov
  proof -
    from c1[OF that] obtain cov1 where
      a: "map_of (coverage obj1) nm = Some cov1"
         "fst ` set cov1 = fst ` set cov \<union>
                   {f. map_of row dl = Some d \<and> within_threshold pyfloat xf thr row \<and>
                       map_of row fl = Some f}" by blast
    from c2[OF a(1)] obtain cov' where
      b: "map_of (coverage obj') nm = Some cov'"
         "fst ` set cov' = fst ` set cov1 \<union>
                   {f. \<exists>row\<in>set rows. map_of row dl = Some d \<and>
                         within_threshold pyfloat xf thr row \<and> map_of row fl = Some f}" by blast
    from a(2) b show ?thesis by auto
  qed
  have sd: "serviceableDemand obj' =
             (if \<exists>r\<in>set (row # rows). map_of r dl = Some d \<and> within_threshold pyfloat xf thr r
              then demand obj else serviceableDemand obj)"
    using o1(3,4) o2(4) by auto
  from o2(1) o1(2,3,5) o2(2,3,5) sd cov show ?case by auto
qed

subsection \<open>The returned coverage object\<close>

lemma summary_loop_sums:
  "summary_loop dem (ts, td) =
     (ts + sum_list (map (\<lambda>kv. serviceableDemand (snd kv)) dem),
      td + sum_list (map (\<lambda>kv. demand (snd kv)) dem))"
  by (induction dem arbitrary: ts td) (auto simp: algebra_simps)

lemma generate_Inr:
  assumes "generate_binary_coverage_from_dist_matrix pyfloat rows thr dl fl df xf arg = Inr m"
  shows "\<exists>F D dem0.
           for_loop (init_row pyfloat dl fl df (fl_variable_name_of arg)) rows ({}, {}, []) =
             Inr (F, D, dem0) \<and>
           for_loop (cover_row pyfloat thr dl fl xf (fl_variable_name_of arg)) rows dem0 =
             Inr (demand_dict m) \<and>
           totalServiceableDemand m =
             sum_list (map (\<lambda>kv. serviceableDemand (snd kv)) (demand_dict m)) \<and>
           totalDemand m = sum_list (map (\<lambda>kv. demand (snd kv)) (demand_dict m)) \<and>
           facilities m = [(fl_variable_name_of arg, F)]"
  using assms
  by (auto simp: generate_binary_coverage_from_dist_matrix_def Let_def summary_loop_sums
      split: sum.splits prod.splits)

lemma generate_keys:
  assumes "generate_binary_coverage_from_dist_matrix pyfloat rows thr dl fl df xf arg = Inr m"
  shows "distinct (map fst (demand_dict m))"
    and "fst ` set (demand_dict m) = {d. \<exists>row\<in>set rows. map_of row dl = Some d}"
proof -
  from generate_Inr[OF assms] obtain F D dem0 where
    l1: "for_loop (init_row pyfloat dl fl df (fl_variable_name_of arg)) rows ({}, {}, []) =
           Inr (F, D, dem0)" and
    l2: "for_loop (cover_row pyfloat thr dl fl xf (fl_variable_name_of arg)) rows dem0 =
           Inr (demand_dict m)"
    by blast
  from init_loop_keys[OF l1] have
    k: "fst ` set dem0 = {d. \<exists>row\<in>set rows. map_of row dl = Some d}" "distinct (map fst dem0)"
    by auto
  from cover_loop_keys[OF l2] have e: "map fst (demand_dict m) = map fst dem0" .
  from e k(2) show "distinct (map fst (demand_dict m))" by simp
  have "fst ` set (demand_dict m) = set (map fst (demand_dict m))" by simp
  also have "\<dots> = fst ` set dem0" using e by simp
  finally show "fst ` set (demand_dict m) = {d. \<exists>row\<in>set rows. map_of row dl = Some d}"
    using k(1) by simp
qed

lemma generate_entry:
  assumes "generate_binary_coverage_from_dist_matrix pyfloat rows thr dl fl df xf arg = Inr m"
      and "map_of (demand_dict m) d = Some obj"
  shows "\<exists>row w cov.
           find (\<lambda>r. map_of r dl = Some d) rows = Some row \<and>
           map_of row df = Some w \<and> pyfloat w = Some (demand obj) \<and>
           area obj = 0 \<and>
           serviceableDemand obj =
             (if \<exists>row\<in>set rows. map_of row dl = Some d \<and> within_threshold pyfloat xf thr row
              then demand obj else 0) \<and>
           map fst (coverage obj) = [fl_variable_name_of arg] \<and>
           map_of (coverage obj) (fl_variable_name_of arg) = Some cov \<and>
           fst ` set cov =
             {f. \<exists>row\<in>set rows. map_of row dl = Some d \<and>
                   within_threshold pyfloat xf thr row \<and> map_of row fl = Some f}"
proof -
  from generate_Inr[OF assms(1)] obtain F D dem0 where
    l1: "for_loop (init_row pyfloat dl fl df (fl_variable_name_of arg)) rows ({}, {}, []) =
           Inr (F, D, dem0)" and
    l2: "for_loop (cover_row pyfloat thr dl fl xf (fl_variable_name_of arg)) rows dem0 =
           Inr (demand_dict m)"
    by blast
  from cover_loop_keys[OF l2] have e: "map fst (demand_dict m) = map fst dem0" .
  from assms(2) have "d \<in> set (map fst (demand_dict m))"
    by (force dest: map_of_SomeD)
  with e have "d \<in> fst ` set dem0" by simp
  then obtain obj0 where o0: "map_of dem0 d = Some obj0"
    by (meson map_of_eq_None_iff not_Some_eq)
  from init_loop_new[OF l1 _ _ o0] obtain row w x where
    r: "find (\<lambda>r. map_of r dl = Some d) rows = Some row" "map_of row df = Some w"
       "pyfloat w = Some x" "obj0 = new_demand_obj (fl_variable_name_of arg) x"
    by auto
  from cover_loop_entry[OF l2 o0] assms(2) have
    p: "area obj = area obj0" "demand obj = demand obj0"
       "serviceableDemand obj =
             (if \<exists>row\<in>set rows. map_of row dl = Some d \<and> within_threshold pyfloat xf thr row
              then demand obj0 else serviceableDemand obj0)"
       "map fst (coverage obj) = map fst (coverage obj0)" and
    c: "\<And>cov. map_of (coverage obj0) (fl_variable_name_of arg) = Some cov \<Longrightarrow>
              \<exists>cov'. map_of (coverage obj) (fl_variable_name_of arg) = Some cov' \<and>
                 fst ` set cov' = fst ` set cov \<union>
                   {f. \<exists>row\<in>set rows. map_of row dl = Some d \<and>
                         within_threshold pyfloat xf thr row \<and> map_of row fl = Some f}"
    by auto
  from r(4) have "map_of (coverage obj0) (fl_variable_name_of arg) = Some []"
    by (simp add: new_demand_obj_def)
  from c[OF this] obtain cov where
    cv: "map_of (coverage obj) (fl_variable_name_of arg) = Some cov"
        "fst ` set cov =
             {f. \<exists>row\<in>set rows. map_of row dl = Some d \<and>
                   within_threshold pyfloat xf thr row \<and> map_of row fl = Some f}"
    by auto
  from r p cv show ?thesis by (auto simp: new_demand_obj_def)
qed

lemma generate_member:
  assumes "generate_binary_coverage_from_dist_matrix pyfloat rows thr dl fl df xf arg = Inr m"
  shows "(d, obj) \<in> set (demand_dict m) \<longleftrightarrow> map_of (demand_dict m) d = Some obj"
  using generate_keys(1)[OF assms] by simp

subsection \<open>The totals\<close>

text \<open>
  The entries of the returned mapping hold no sum: the only additions of the builder are
  those of the totals. The order of the two totals and their equality when every entry is
  covered hold for every monotone addition, the exact one included.
\<close>

lemma summary_loop_with_plus: "summary_loop_with (+) dem tot = summary_loop dem tot"
  by (induction dem tot rule: summary_loop.induct) simp_all

lemma summary_loop_with_le:
  assumes "\<And>a b c d. a \<le> c \<Longrightarrow> b \<le> d \<Longrightarrow> add a b \<le> add c d"
      and "\<forall>kv\<in>set dem. serviceableDemand (snd kv) \<le> demand (snd kv)"
      and "ts \<le> td"
  shows "fst (summary_loop_with add dem (ts, td)) \<le> snd (summary_loop_with add dem (ts, td))"
  using assms(2,3)
proof (induction dem arbitrary: ts td)
  case Nil
  then show ?case by simp
next
  case (Cons kv dem)
  obtain k row where kv: "kv = (k, row)" by (cases kv)
  from Cons.prems kv have "serviceableDemand row \<le> demand row" by simp
  with Cons.prems(2) have "add ts (serviceableDemand row) \<le> add td (demand row)"
    by (rule assms(1))
  moreover from Cons.prems(1) have "\<forall>kv\<in>set dem. serviceableDemand (snd kv) \<le> demand (snd kv)"
    by simp
  ultimately show ?case using Cons.IH kv by simp
qed

lemma summary_loop_with_eq:
  assumes "\<forall>kv\<in>set dem. serviceableDemand (snd kv) = demand (snd kv)"
  shows "fst (summary_loop_with add dem (t, t)) = snd (summary_loop_with add dem (t, t))"
  using assms
proof (induction dem arbitrary: t)
  case Nil
  then show ?case by simp
next
  case (Cons kv dem)
  obtain k row where kv: "kv = (k, row)" by (cases kv)
  from Cons.prems kv have "serviceableDemand row = demand row" by simp
  moreover from Cons.prems have "\<forall>kv\<in>set dem. serviceableDemand (snd kv) = demand (snd kv)"
    by simp
  ultimately show ?case using Cons.IH[of "add t (demand row)"] kv by simp
qed

lemma generate_serviceable:
  assumes "generate_binary_coverage_from_dist_matrix pyfloat rows thr dl fl df xf arg = Inr m"
      and "kv \<in> set (demand_dict m)"
  shows "serviceableDemand (snd kv) =
           (if \<exists>row\<in>set rows. map_of row dl = Some (fst kv) \<and> within_threshold pyfloat xf thr row
            then demand (snd kv) else 0)"
proof -
  from assms have "map_of (demand_dict m) (fst kv) = Some (snd kv)"
    using generate_member[OF assms(1), of "fst kv" "snd kv"] by simp
  from generate_entry[OF assms(1) this] show ?thesis by blast
qed

lemma generate_totals_rounded:
  assumes "generate_binary_coverage_from_dist_matrix pyfloat rows thr dl fl df xf arg = Inr m"
      and "\<And>a b c d. a \<le> c \<Longrightarrow> b \<le> d \<Longrightarrow> add a b \<le> add c d"
  shows "(\<forall>kv\<in>set (demand_dict m). 0 \<le> demand (snd kv)) \<Longrightarrow>
           fst (summary_loop_with add (demand_dict m) (0, 0)) \<le>
           snd (summary_loop_with add (demand_dict m) (0, 0))"
    and "(\<forall>kv\<in>set (demand_dict m). \<exists>row\<in>set rows.
             map_of row dl = Some (fst kv) \<and> within_threshold pyfloat xf thr row) \<Longrightarrow>
           fst (summary_loop_with add (demand_dict m) (0, 0)) =
           snd (summary_loop_with add (demand_dict m) (0, 0))"
proof -
  assume nonneg: "\<forall>kv\<in>set (demand_dict m). 0 \<le> demand (snd kv)"
  have "\<forall>kv\<in>set (demand_dict m). serviceableDemand (snd kv) \<le> demand (snd kv)"
  proof
    fix kv assume kv: "kv \<in> set (demand_dict m)"
    with nonneg have "0 \<le> demand (snd kv)" by blast
    with generate_serviceable[OF assms(1) kv] show "serviceableDemand (snd kv) \<le> demand (snd kv)"
      by (simp split: if_splits)
  qed
  from summary_loop_with_le[where add = add and ts = 0 and td = 0, OF assms(2) this]
  show "fst (summary_loop_with add (demand_dict m) (0, 0)) \<le>
           snd (summary_loop_with add (demand_dict m) (0, 0))" by simp
next
  assume cov: "\<forall>kv\<in>set (demand_dict m). \<exists>row\<in>set rows.
             map_of row dl = Some (fst kv) \<and> within_threshold pyfloat xf thr row"
  have "\<forall>kv\<in>set (demand_dict m). serviceableDemand (snd kv) = demand (snd kv)"
  proof
    fix kv assume kv: "kv \<in> set (demand_dict m)"
    with cov have "\<exists>row\<in>set rows.
             map_of row dl = Some (fst kv) \<and> within_threshold pyfloat xf thr row" by blast
    with generate_serviceable[OF assms(1) kv] show "serviceableDemand (snd kv) = demand (snd kv)"
      by simp
  qed
  from summary_loop_with_eq[OF this]
  show "fst (summary_loop_with add (demand_dict m) (0, 0)) =
           snd (summary_loop_with add (demand_dict m) (0, 0))" .
qed

lemma generate_totals_with_plus:
  assumes "generate_binary_coverage_from_dist_matrix pyfloat rows thr dl fl df xf arg = Inr m"
  shows "summary_loop_with (+) (demand_dict m) (0, 0) = (totalServiceableDemand m, totalDemand m)"
  using assms
  by (auto simp: generate_binary_coverage_from_dist_matrix_def Let_def summary_loop_with_plus
      split: sum.splits prod.splits)

subsection \<open>The builder returns on well-formed rows\<close>

text \<open>
  When every row has the four fields and its demand and distance parse, no read fails
  and the builder returns a coverage object.
\<close>

lemma init_loop_total:
  assumes "\<forall>row\<in>set rows. (\<exists>f. map_of row fl = Some f) \<and> (\<exists>d. map_of row dl = Some d) \<and>
             (\<exists>w x. map_of row df = Some w \<and> pyfloat w = Some x)"
  shows "\<exists>st'. for_loop (init_row pyfloat dl fl df nm) rows st = Inr st'"
  using assms
proof (induction rows arbitrary: st)
  case Nil
  show ?case by (rule exI[of _ st]) simp
next
  case (Cons row rows)
  obtain F D dem where st: "st = (F, D, dem)" by (rule prod_cases3)
  from Cons.prems obtain f d w x where
    "map_of row fl = Some f" "map_of row dl = Some d" "map_of row df = Some w" "pyfloat w = Some x"
    by auto
  then have "\<exists>st1. init_row pyfloat dl fl df nm row st = Inr st1"
    by (simp add: st init_row_def getitem_def to_float_def)
  then obtain st1 where s1: "init_row pyfloat dl fl df nm row st = Inr st1" ..
  from Cons.prems have "\<forall>row\<in>set rows. (\<exists>f. map_of row fl = Some f) \<and> (\<exists>d. map_of row dl = Some d) \<and>
             (\<exists>w x. map_of row df = Some w \<and> pyfloat w = Some x)" by simp
  from Cons.IH[OF this, of st1] s1 show ?case by simp
qed

lemma cover_loop_total:
  assumes "\<forall>row\<in>set rows. (\<exists>f. map_of row fl = Some f) \<and>
             (\<exists>s x. map_of row xf = Some s \<and> pyfloat s = Some x) \<and>
             (\<exists>d obj cov. map_of row dl = Some d \<and> map_of dem d = Some obj \<and>
                map_of (coverage obj) nm = Some cov)"
  shows "\<exists>dem'. for_loop (cover_row pyfloat thr dl fl xf nm) rows dem = Inr dem'"
  using assms
proof (induction rows arbitrary: dem)
  case Nil
  show ?case by simp
next
  case (Cons row rows)
  from Cons.prems obtain f s x d obj cov where
    r: "map_of row fl = Some f" "map_of row xf = Some s" "pyfloat s = Some x"
       "map_of row dl = Some d" "map_of dem d = Some obj" "map_of (coverage obj) nm = Some cov"
    by auto
  then have "\<exists>dem1. cover_row pyfloat thr dl fl xf nm row dem = Inr dem1"
    by (simp add: cover_row_def getitem_def to_float_def)
  then obtain dem1 where s1: "cover_row pyfloat thr dl fl xf nm row dem = Inr dem1" ..
  have "\<forall>row\<in>set rows. (\<exists>f. map_of row fl = Some f) \<and>
             (\<exists>s x. map_of row xf = Some s \<and> pyfloat s = Some x) \<and>
             (\<exists>d obj cov. map_of row dl = Some d \<and> map_of dem1 d = Some obj \<and>
                map_of (coverage obj) nm = Some cov)"
  proof
    fix r assume "r \<in> set rows"
    with Cons.prems obtain f' s' x' d' obj' cov' where
      q: "map_of r fl = Some f'" "map_of r xf = Some s'" "pyfloat s' = Some x'"
         "map_of r dl = Some d'" "map_of dem d' = Some obj'" "map_of (coverage obj') nm = Some cov'"
      by fastforce
    from cover_row_entry(2)[OF s1 q(5)] q(6) obtain obj1 cov1 where
      "map_of dem1 d' = Some obj1" "map_of (coverage obj1) nm = Some cov1"
      by blast
    with q show "(\<exists>f. map_of r fl = Some f) \<and>
             (\<exists>s x. map_of r xf = Some s \<and> pyfloat s = Some x) \<and>
             (\<exists>d obj cov. map_of r dl = Some d \<and> map_of dem1 d = Some obj \<and>
                map_of (coverage obj) nm = Some cov)" by blast
  qed
  from Cons.IH[OF this] s1 show ?case by simp
qed

lemma generate_total:
  assumes "\<forall>row\<in>set rows. (\<exists>f. map_of row fl = Some f) \<and> (\<exists>d. map_of row dl = Some d) \<and>
             (\<exists>w x. map_of row df = Some w \<and> pyfloat w = Some x) \<and>
             (\<exists>s x. map_of row xf = Some s \<and> pyfloat s = Some x)"
  shows "\<exists>m. generate_binary_coverage_from_dist_matrix pyfloat rows thr dl fl df xf arg = Inr m"
proof -
  from assms have "\<forall>row\<in>set rows. (\<exists>f. map_of row fl = Some f) \<and> (\<exists>d. map_of row dl = Some d) \<and>
             (\<exists>w x. map_of row df = Some w \<and> pyfloat w = Some x)" by blast
  from init_loop_total[OF this, where nm = "fl_variable_name_of arg" and st = "({}, {}, [])"]
  obtain F D dem0 where
    l1: "for_loop (init_row pyfloat dl fl df (fl_variable_name_of arg)) rows ({}, {}, []) =
           Inr (F, D, dem0)"
    by (metis prod_cases3)
  have "\<forall>row\<in>set rows. (\<exists>f. map_of row fl = Some f) \<and>
             (\<exists>s x. map_of row xf = Some s \<and> pyfloat s = Some x) \<and>
             (\<exists>d obj cov. map_of row dl = Some d \<and> map_of dem0 d = Some obj \<and>
                map_of (coverage obj) (fl_variable_name_of arg) = Some cov)"
  proof
    fix row assume r: "row \<in> set rows"
    with assms obtain d where d: "map_of row dl = Some d" by blast
    with r init_loop_keys[OF l1] have "d \<in> fst ` set dem0" by auto
    then obtain obj where o: "map_of dem0 d = Some obj"
      by (meson map_of_eq_None_iff not_Some_eq)
    from init_loop_new[OF l1 _ _ o] obtain x where
      "obj = new_demand_obj (fl_variable_name_of arg) x" by auto
    then have "map_of (coverage obj) (fl_variable_name_of arg) = Some []"
      by (simp add: new_demand_obj_def)
    with r assms d o show "(\<exists>f. map_of row fl = Some f) \<and>
             (\<exists>s x. map_of row xf = Some s \<and> pyfloat s = Some x) \<and>
             (\<exists>d obj cov. map_of row dl = Some d \<and> map_of dem0 d = Some obj \<and>
                map_of (coverage obj) (fl_variable_name_of arg) = Some cov)" by blast
  qed
  from cover_loop_total[OF this, where thr = thr] obtain dem where
    l2: "for_loop (cover_row pyfloat thr dl fl xf (fl_variable_name_of arg)) rows dem0 = Inr dem"
    by blast
  from l1 l2 show ?thesis
    by (simp add: generate_binary_coverage_from_dist_matrix_def Let_def split: prod.splits)
qed

subsection \<open>The builder on the concrete inputs\<close>

lemmas build_simps =
  build_default_def generate_binary_coverage_from_dist_matrix_def fl_variable_name_of_def
  init_row_def cover_row_def new_demand_obj_def getitem_def to_float_def
  csv_record_def example_float_def Let_def

lemma build_example: "build_default example_rows 5000 = Inr example_coverage"
  by (simp add: build_simps example_rows_def example_coverage_def insert_commute)

lemma build_duplicate: "build_default duplicate_rows 5000 = Inr duplicate_coverage"
  by (simp add: build_simps duplicate_rows_def duplicate_coverage_def duplicate_obj_def
      insert_commute)

lemma build_zero: "build_default zero_rows 5000 = Inr zero_coverage"
  by (simp add: build_simps zero_rows_def zero_coverage_def)

lemma build_negative: "build_default negative_rows 5000 = Inr negative_coverage"
  by (simp add: build_simps negative_rows_def negative_coverage_def)

section \<open>Properties of the pipeline\<close>

lemma covered_loop_eq:
  "covered_loop chosen items acc =
     (if \<exists>kv\<in>set items. map_of (coverage (snd kv)) ''facility'' = None
      then Inl (KeyError ''facility'')
      else Inr (acc + sum_list (map (\<lambda>kv. covered_weight chosen (snd kv)) items)))"
proof (induction items arbitrary: acc)
  case Nil
  show ?case by simp
next
  case (Cons kv items)
  obtain demand_id obj where kv: "kv = (demand_id, obj)" by (cases kv)
  show ?case
  proof (cases "map_of (coverage obj) ''facility''")
    case None
    with kv show ?thesis by (simp add: getitem_def)
  next
    case (Some cov)
    with kv Cons.IH show ?thesis
      by (auto simp: getitem_def covered_weight_def add.assoc)
  qed
qed

lemma missing_field_Some:
  assumes "\<exists>field\<in>set req. field \<notin> fst ` set item"
  shows "\<exists>field\<in>set req. field \<notin> fst ` set item \<and> missing_field req item = Some field"
  using assms by (induction req) auto

lemma generate_coverage_keys:
  assumes "generate_binary_coverage_from_dist_matrix pyfloat rows thr dl fl df xf arg = Inr m"
      and "kv \<in> set (demand_dict m)"
  shows "map fst (coverage (snd kv)) = [fl_variable_name_of arg]"
proof -
  from assms have "map_of (demand_dict m) (fst kv) = Some (snd kv)"
    using generate_member[OF assms(1), of "fst kv" "snd kv"] by simp
  from generate_entry[OF assms(1) this] show ?thesis by blast
qed

lemma generate_nonempty:
  assumes "generate_binary_coverage_from_dist_matrix pyfloat rows thr dl fl df xf arg = Inr m"
      and "rows \<noteq> []"
  shows "demand_dict m \<noteq> []"
proof -
  from assms(2) obtain row rest where r: "rows = row # rest" by (cases rows) auto
  from generate_Inr[OF assms(1)] obtain F D dem0 where
    l1: "for_loop (init_row pyfloat dl fl df (fl_variable_name_of arg)) rows ({}, {}, []) =
           Inr (F, D, dem0)"
    by blast
  with r obtain st1 where
    "init_row pyfloat dl fl df (fl_variable_name_of arg) row ({}, {}, []) = Inr st1"
    by (auto split: sum.splits)
  then obtain F1 D1 dem1 where
    "init_row pyfloat dl fl df (fl_variable_name_of arg) row ({}, {}, []) = Inr (F1, D1, dem1)"
    by (cases st1) auto
  from init_row_Inr[OF this] obtain d where "map_of row dl = Some d" by blast
  with r generate_keys(2)[OF assms(1)] have "d \<in> fst ` set (demand_dict m)" by auto
  then show ?thesis by auto
qed

text \<open>
  The result summary reads the coverage under the literal key \<^verbatim>\<open>"facility"\<close> (line 135),
  while the builder records it under \<open>facility_variable_name\<close>: with another name the
  function raises \<open>KeyError\<close> once the coverage object is built.
\<close>

lemma pipeline_other_name:
  assumes "1 < length rows" and "missing_field req (rows ! 1) = None"
      and "generate_binary_coverage_from_dist_matrix pyfloat rows thr
             ''demand_id'' ''facility_id'' ''demand'' ''distance'' (Some nm) = Inr m"
      and "nm \<noteq> ''facility''"
  shows "binary_mclp_distance_matrix pyfloat solve rows thr n req nm =
           ([], Inl (KeyError ''facility''))"
proof -
  from assms(1) have "rows \<noteq> []" by auto
  from generate_nonempty[OF assms(3) this] obtain kv where kv: "kv \<in> set (demand_dict m)"
    by (cases "demand_dict m") auto
  from generate_coverage_keys[OF assms(3) kv] assms(4)
  have "''facility'' \<notin> fst ` set (coverage (snd kv))"
    by (metis fl_variable_name_of_def list.set_map list.simps(15) empty_set option.simps(5) singletonD)
  then have "map_of (coverage (snd kv)) ''facility'' = None"
    by (simp add: map_of_eq_None_iff)
  with kv have "\<exists>kv\<in>set (demand_dict m). map_of (coverage (snd kv)) ''facility'' = None"
    by blast
  then have "result_summary ids m n = Inl (KeyError ''facility'')" for ids
    by (simp add: result_summary_def covered_loop_eq Let_def)
  with assms(1,2,3) show ?thesis
    by (simp add: binary_mclp_distance_matrix_def list_index_def)
qed

section \<open>The claims\<close>

text \<open>
  Claim C1. In the coverage object the builder returns, a facility id is recorded in the
  coverage of a demand id, under the facility variable name, if and only if some input
  row pairs that facility id with that demand id and has a distance less than or equal
  to the threshold. The first part is about every demand id and facility id: a row
  within the threshold gets its demand id an entry and its facility id a key of that
  entry's coverage. The second part is about every entry of the returned mapping.
\<close>

theorem coverage_iff_row_within_threshold:
  assumes "generate_binary_coverage_from_dist_matrix pyfloat rows thr dl fl df xf arg = Inr m"
  shows "(\<forall>f. (\<exists>obj cov. (d, obj) \<in> set (demand_dict m) \<and>
                 map_of (coverage obj) (fl_variable_name_of arg) = Some cov \<and>
                 f \<in> set (map fst cov)) \<longleftrightarrow>
              (\<exists>row\<in>set rows. \<exists>s x. map_of row fl = Some f \<and> map_of row dl = Some d \<and>
                 map_of row xf = Some s \<and> pyfloat s = Some x \<and> x \<le> thr)) \<and>
         (\<forall>obj. (d, obj) \<in> set (demand_dict m) \<longrightarrow>
            (\<exists>cov. map_of (coverage obj) (fl_variable_name_of arg) = Some cov \<and>
               (\<forall>f. f \<in> set (map fst cov) \<longleftrightarrow>
                  (\<exists>row\<in>set rows. \<exists>s x. map_of row fl = Some f \<and> map_of row dl = Some d \<and>
                     map_of row xf = Some s \<and> pyfloat s = Some x \<and> x \<le> thr))))"
proof -
  have entry: "\<exists>cov. map_of (coverage obj) (fl_variable_name_of arg) = Some cov \<and>
               (\<forall>f. f \<in> set (map fst cov) \<longleftrightarrow>
                  (\<exists>row\<in>set rows. \<exists>s x. map_of row fl = Some f \<and> map_of row dl = Some d \<and>
                     map_of row xf = Some s \<and> pyfloat s = Some x \<and> x \<le> thr))"
    if "(d, obj) \<in> set (demand_dict m)" for obj
  proof -
    from that assms have "map_of (demand_dict m) d = Some obj" by (simp add: generate_member)
    from generate_entry[OF assms this] obtain cov where
      c: "map_of (coverage obj) (fl_variable_name_of arg) = Some cov"
         "fst ` set cov =
               {f. \<exists>row\<in>set rows. map_of row dl = Some d \<and>
                     within_threshold pyfloat xf thr row \<and> map_of row fl = Some f}"
      by blast
    from c(2) have "\<forall>f. f \<in> set (map fst cov) \<longleftrightarrow>
                (\<exists>row\<in>set rows. \<exists>s x. map_of row fl = Some f \<and> map_of row dl = Some d \<and>
                   map_of row xf = Some s \<and> pyfloat s = Some x \<and> x \<le> thr)"
      by (auto simp: within_threshold_iff)
    with c(1) show ?thesis by blast
  qed
  have "(\<exists>obj cov. (d, obj) \<in> set (demand_dict m) \<and>
                 map_of (coverage obj) (fl_variable_name_of arg) = Some cov \<and>
                 f \<in> set (map fst cov)) \<longleftrightarrow>
              (\<exists>row\<in>set rows. \<exists>s x. map_of row fl = Some f \<and> map_of row dl = Some d \<and>
                 map_of row xf = Some s \<and> pyfloat s = Some x \<and> x \<le> thr)" (is "?L \<longleftrightarrow> ?R") for f
  proof
    assume ?L
    then obtain obj cov where
      h: "(d, obj) \<in> set (demand_dict m)"
         "map_of (coverage obj) (fl_variable_name_of arg) = Some cov" "f \<in> set (map fst cov)"
      by blast
    from entry[OF h(1)] h(2,3) show ?R by auto
  next
    assume r: ?R
    then obtain row where "row \<in> set rows" "map_of row dl = Some d" by blast
    with generate_keys(2)[OF assms] have "d \<in> fst ` set (demand_dict m)" by blast
    then obtain obj where o: "(d, obj) \<in> set (demand_dict m)" by auto
    from entry[OF o] r obtain cov where
      "map_of (coverage obj) (fl_variable_name_of arg) = Some cov" "f \<in> set (map fst cov)"
      by blast
    with o show ?L by blast
  qed
  then have first: "\<forall>f. (\<exists>obj cov. (d, obj) \<in> set (demand_dict m) \<and>
                 map_of (coverage obj) (fl_variable_name_of arg) = Some cov \<and>
                 f \<in> set (map fst cov)) \<longleftrightarrow>
              (\<exists>row\<in>set rows. \<exists>s x. map_of row fl = Some f \<and> map_of row dl = Some d \<and>
                 map_of row xf = Some s \<and> pyfloat s = Some x \<and> x \<le> thr)"
    by (rule allI)
  from entry have second: "\<forall>obj. (d, obj) \<in> set (demand_dict m) \<longrightarrow>
            (\<exists>cov. map_of (coverage obj) (fl_variable_name_of arg) = Some cov \<and>
               (\<forall>f. f \<in> set (map fst cov) \<longleftrightarrow>
                  (\<exists>row\<in>set rows. \<exists>s x. map_of row fl = Some f \<and> map_of row dl = Some d \<and>
                     map_of row xf = Some s \<and> pyfloat s = Some x \<and> x \<le> thr)))"
    by (intro allI impI)
  from first second show ?thesis by (rule conjI)
qed

text \<open>
  The theorem on the rows \<open>duplicate_rows\<close>: facility \<^verbatim>\<open>F1\<close>, at a distance equal to the
  threshold, is recorded for \<^verbatim>\<open>D1\<close>, and \<^verbatim>\<open>F2\<close>, beyond the threshold, is not.
\<close>

theorem coverage_iff_row_within_threshold_witness:
  "(\<exists>obj cov. (''D1'', obj) \<in> set (demand_dict duplicate_coverage) \<and>
      map_of (coverage obj) ''facility'' = Some cov \<and> ''F1'' \<in> set (map fst cov)) \<and>
   \<not> (\<exists>obj cov. (''D1'', obj) \<in> set (demand_dict duplicate_coverage) \<and>
      map_of (coverage obj) ''facility'' = Some cov \<and> ''F2'' \<in> set (map fst cov))"
proof -
  from coverage_iff_row_within_threshold[OF build_duplicate[unfolded build_default_def], of "''D1''"]
  have inst: "(\<exists>obj cov. (''D1'', obj) \<in> set (demand_dict duplicate_coverage) \<and>
                 map_of (coverage obj) ''facility'' = Some cov \<and> f \<in> set (map fst cov)) \<longleftrightarrow>
              (\<exists>row\<in>set duplicate_rows. \<exists>s x. map_of row ''facility_id'' = Some f \<and>
                 map_of row ''demand_id'' = Some ''D1'' \<and> map_of row ''distance'' = Some s \<and>
                 example_float s = Some x \<and> x \<le> 5000)" for f
    unfolding fl_variable_name_of_def option.case by (elim conjE allE)
  have in_F1: "\<exists>row\<in>set duplicate_rows. \<exists>s x. map_of row ''facility_id'' = Some ''F1'' \<and>
      map_of row ''demand_id'' = Some ''D1'' \<and> map_of row ''distance'' = Some s \<and>
      example_float s = Some x \<and> x \<le> 5000"
    by (simp add: duplicate_rows_def csv_record_def example_float_def)
  have out_F2: "\<not> (\<exists>row\<in>set duplicate_rows. \<exists>s x. map_of row ''facility_id'' = Some ''F2'' \<and>
      map_of row ''demand_id'' = Some ''D1'' \<and> map_of row ''distance'' = Some s \<and>
      example_float s = Some x \<and> x \<le> 5000)"
    by (simp add: duplicate_rows_def csv_record_def example_float_def)
  from inst[of "''F1''"] in_F1 inst[of "''F2''"] out_F2 show ?thesis by (simp only: simp_thms)
qed

text \<open>
  Claim C2, as amended. In the coverage object the builder returns, when every stored
  demand weight is non-negative the total serviceable demand is at most the total demand,
  and when every demand unit has a row within the threshold the two totals are equal.
  Nothing is stated of the converse. (Lemma \<open>generate_totals_rounded\<close> has both parts for
  the totals summed with any monotone addition.)
\<close>

theorem totals_ordered_when_weights_nonnegative:
  assumes "generate_binary_coverage_from_dist_matrix pyfloat rows thr dl fl df xf arg = Inr m"
  shows "((\<forall>kv\<in>set (demand_dict m). 0 \<le> demand (snd kv)) \<longrightarrow>
            totalServiceableDemand m \<le> totalDemand m) \<and>
         ((\<forall>kv\<in>set (demand_dict m). \<exists>row\<in>set rows.
              map_of row dl = Some (fst kv) \<and> within_threshold pyfloat xf thr row) \<longrightarrow>
            totalServiceableDemand m = totalDemand m)"
proof -
  have mono: "a \<le> c \<Longrightarrow> b \<le> d \<Longrightarrow> a + b \<le> c + d" for a b c d :: real
    by (rule add_mono)
  from generate_totals_rounded[where add = "(+)", OF assms mono]
       generate_totals_with_plus[OF assms]
  show ?thesis by simp
qed

text \<open>
  The theorem on the rows of the specification's example: the weights are positive and
  both demand units have a row within the threshold.
\<close>

theorem totals_ordered_when_weights_nonnegative_witness:
  "totalServiceableDemand example_coverage \<le> totalDemand example_coverage \<and>
   totalServiceableDemand example_coverage = totalDemand example_coverage"
proof -
  have h1: "\<forall>kv\<in>set (demand_dict example_coverage). 0 \<le> demand (snd kv)"
    by (simp add: example_coverage_def)
  have h2: "\<forall>kv\<in>set (demand_dict example_coverage). \<exists>row\<in>set example_rows.
              map_of row ''demand_id'' = Some (fst kv) \<and>
              within_threshold example_float ''distance'' 5000 row"
    by (simp add: example_coverage_def example_rows_def csv_record_def within_threshold_def
        example_float_def)
  from totals_ordered_when_weights_nonnegative[OF build_example[unfolded build_default_def]] h1 h2
  show ?thesis by (simp only: simp_thms)
qed

text \<open>
  The claim as it is stated fails. On \<open>zero_rows\<close> the totals are equal, both \<open>0\<close>,
  although no row is within the threshold, so neither demand unit has a facility within
  it: equal totals do not give that every unit is covered. On \<open>negative_rows\<close> the total
  serviceable demand \<open>0\<close> exceeds the total demand \<open>-5\<close>.
\<close>

theorem totals_claim_counterexample:
  "build_default zero_rows 5000 = Inr zero_coverage \<and>
   totalServiceableDemand zero_coverage = totalDemand zero_coverage \<and>
   map fst (demand_dict zero_coverage) = [''D1'', ''D2''] \<and>
   \<not> list_ex (within_threshold example_float ''distance'' 5000) zero_rows \<and>
   build_default negative_rows 5000 = Inr negative_coverage \<and>
   \<not> totalServiceableDemand negative_coverage \<le> totalDemand negative_coverage"
proof -
  have "\<not> list_ex (within_threshold example_float ''distance'' 5000) zero_rows"
    by (simp add: zero_rows_def within_threshold_def csv_record_def example_float_def)
  moreover have "totalServiceableDemand zero_coverage = totalDemand zero_coverage"
    "map fst (demand_dict zero_coverage) = [''D1'', ''D2'']"
    by (simp_all add: zero_coverage_def)
  moreover have "\<not> totalServiceableDemand negative_coverage \<le> totalDemand negative_coverage"
    by (simp add: negative_coverage_def)
  ultimately show ?thesis using build_zero build_negative by simp
qed

text \<open>
  Claim C3. When the total demand of the coverage object is zero, the result summary
  raises \<open>ZeroDivisionError\<close> at the division of line 146: it returns no record, and so
  no percentage that is NaN or infinite. (The coverage is read under \<^verbatim>\<open>"facility"\<close> before
  the division, hence the second assumption.)
\<close>

theorem zero_total_demand_raises:
  assumes "totalDemand m = 0"
      and "\<forall>kv\<in>set (demand_dict m). map_of (coverage (snd kv)) ''facility'' \<noteq> None"
  shows "result_summary ids m n = Inl ZeroDivisionError"
  using assms by (auto simp: result_summary_def covered_loop_eq py_div_def Let_def)

text \<open>
  The theorem on the coverage object of \<open>zero_rows\<close>, two demand units of weight \<open>0\<close>;
  the whole function raises the same error on these rows.
\<close>

theorem zero_total_demand_raises_witness:
  "totalDemand zero_coverage = 0 \<and>
   result_summary [''F1''] zero_coverage 1 = Inl ZeroDivisionError \<and>
   binary_mclp_distance_matrix example_float solve_F1 zero_rows 5000 1 list_field_req_default
     ''facility'' = ([], Inl ZeroDivisionError)"
proof -
  have t: "totalDemand zero_coverage = 0" by (simp add: zero_coverage_def)
  have c: "\<forall>kv\<in>set (demand_dict zero_coverage). map_of (coverage (snd kv)) ''facility'' \<noteq> None"
    by (simp add: zero_coverage_def)
  have r: "result_summary ids zero_coverage n = Inl ZeroDivisionError" for ids n
    by (rule zero_total_demand_raises[OF t c])
  have g: "generate_binary_coverage_from_dist_matrix example_float zero_rows 5000
             ''demand_id'' ''facility_id'' ''demand'' ''distance'' (Some ''facility'') =
           Inr zero_coverage"
    using build_zero by (simp add: build_default_def generate_binary_coverage_from_dist_matrix_def
        fl_variable_name_of_def)
  have "binary_mclp_distance_matrix example_float solve_F1 zero_rows 5000 1 list_field_req_default
     ''facility'' = ([], Inl ZeroDivisionError)"
    unfolding binary_mclp_distance_matrix_def g
    by (simp add: r list_index_def zero_rows_def list_field_req_default_def csv_record_def)
  with t r show ?thesis by simp
qed


text \<open>
  Claim C5. The demand weight stored for a demand id is the one of the first row with that
  id (\<open>find\<close> returns the first row that satisfies the predicate): later rows of the
  same id do not overwrite it. The first part is about every demand id that a row has:
  the mapping has an entry for it, whose weight is \<^verbatim>\<open>float\<close> of the demand field of the
  first such row. The second part is about every entry of the returned mapping.
\<close>

theorem demand_weight_from_first_row:
  assumes "generate_binary_coverage_from_dist_matrix pyfloat rows thr dl fl df xf arg = Inr m"
  shows "(\<forall>row. find (\<lambda>r. map_of r dl = Some d) rows = Some row \<longrightarrow>
            (\<exists>obj w. (d, obj) \<in> set (demand_dict m) \<and> map_of row df = Some w \<and>
               pyfloat w = Some (demand obj))) \<and>
         (\<forall>obj. (d, obj) \<in> set (demand_dict m) \<longrightarrow>
            (\<exists>row w. find (\<lambda>r. map_of r dl = Some d) rows = Some row \<and>
               map_of row df = Some w \<and> pyfloat w = Some (demand obj)))"
proof -
  have entry: "\<exists>row w. find (\<lambda>r. map_of r dl = Some d) rows = Some row \<and>
               map_of row df = Some w \<and> pyfloat w = Some (demand obj)"
    if "(d, obj) \<in> set (demand_dict m)" for obj
  proof -
    from that assms have "map_of (demand_dict m) d = Some obj" by (simp add: generate_member)
    from generate_entry[OF assms this] show ?thesis by blast
  qed
  have "\<exists>obj w. (d, obj) \<in> set (demand_dict m) \<and> map_of row df = Some w \<and>
               pyfloat w = Some (demand obj)"
    if f: "find (\<lambda>r. map_of r dl = Some d) rows = Some row" for row
  proof -
    from f have "row \<in> set rows" "map_of row dl = Some d"
      by (auto simp: find_Some_iff)
    with generate_keys(2)[OF assms] have "d \<in> fst ` set (demand_dict m)" by blast
    then obtain obj where o: "(d, obj) \<in> set (demand_dict m)" by auto
    from entry[OF o] f obtain w where "map_of row df = Some w" "pyfloat w = Some (demand obj)"
      by auto
    with o show ?thesis by blast
  qed
  then have first: "\<forall>row. find (\<lambda>r. map_of r dl = Some d) rows = Some row \<longrightarrow>
            (\<exists>obj w. (d, obj) \<in> set (demand_dict m) \<and> map_of row df = Some w \<and>
               pyfloat w = Some (demand obj))"
    by (intro allI impI)
  from entry have second: "\<forall>obj. (d, obj) \<in> set (demand_dict m) \<longrightarrow>
            (\<exists>row w. find (\<lambda>r. map_of r dl = Some d) rows = Some row \<and>
               map_of row df = Some w \<and> pyfloat w = Some (demand obj))"
    by (intro allI impI)
  from first second show ?thesis by (rule conjI)
qed

text \<open>
  The theorem on the rows \<open>duplicate_rows\<close>, where \<^verbatim>\<open>D1\<close> has the weight \<open>10\<close> in its
  first row and \<open>7\<close> in its second: an entry of \<^verbatim>\<open>D1\<close> is stored with the weight of the
  first row.
\<close>

theorem demand_weight_from_first_row_witness:
  "find (\<lambda>r. map_of r ''demand_id'' = Some ''D1'') duplicate_rows =
     Some (csv_record ''F1'' ''D1'' ''10'' ''5000'') \<and>
   (\<exists>obj w. (''D1'', obj) \<in> set (demand_dict duplicate_coverage) \<and>
      map_of (csv_record ''F1'' ''D1'' ''10'' ''5000'') ''demand'' = Some w \<and>
      example_float w = Some (demand obj))"
proof -
  have f: "find (\<lambda>r. map_of r ''demand_id'' = Some ''D1'') duplicate_rows =
     Some (csv_record ''F1'' ''D1'' ''10'' ''5000'')"
    by (simp add: duplicate_rows_def csv_record_def)
  from demand_weight_from_first_row[OF build_duplicate[unfolded build_default_def], of "''D1''"]
  have "find (\<lambda>r. map_of r ''demand_id'' = Some ''D1'') duplicate_rows =
          Some (csv_record ''F1'' ''D1'' ''10'' ''5000'') \<longrightarrow>
        (\<exists>obj w. (''D1'', obj) \<in> set (demand_dict duplicate_coverage) \<and>
           map_of (csv_record ''F1'' ''D1'' ''10'' ''5000'') ''demand'' = Some w \<and>
           example_float w = Some (demand obj))"
    by (elim conjE allE)
  with f have "\<exists>obj w. (''D1'', obj) \<in> set (demand_dict duplicate_coverage) \<and>
      map_of (csv_record ''F1'' ''D1'' ''10'' ''5000'') ''demand'' = Some w \<and>
      example_float w = Some (demand obj)"
    by (rule rev_mp)
  with f show ?thesis by blast
qed

text \<open>
  Claim C6. The serviceable demand of every entry of the returned coverage object is
  either \<open>0\<close> or the entry's own demand weight: it is the weight when some row of that
  demand id is within the threshold, whatever the number of such rows, and \<open>0\<close> otherwise.
\<close>

theorem serviceable_demand_zero_or_full:
  assumes "generate_binary_coverage_from_dist_matrix pyfloat rows thr dl fl df xf arg = Inr m"
      and "(d, obj) \<in> set (demand_dict m)"
  shows "(serviceableDemand obj = 0 \<or> serviceableDemand obj = demand obj) \<and>
         serviceableDemand obj =
           (if \<exists>row\<in>set rows. map_of row dl = Some d \<and> within_threshold pyfloat xf thr row
            then demand obj else 0)"
proof -
  from assms have "map_of (demand_dict m) d = Some obj" by (simp add: generate_member)
  from generate_entry[OF assms(1) this] have
    eq: "serviceableDemand obj =
           (if \<exists>row\<in>set rows. map_of row dl = Some d \<and> within_threshold pyfloat xf thr row
            then demand obj else 0)"
    by blast
  show ?thesis
  proof (cases "\<exists>row\<in>set rows. map_of row dl = Some d \<and> within_threshold pyfloat xf thr row")
    case True
    with eq have "serviceableDemand obj = demand obj" by simp
    with eq show ?thesis by simp
  next
    case False
    with eq have "serviceableDemand obj = 0" by simp
    with eq show ?thesis by simp
  qed
qed

text \<open>The theorem on the entry of \<^verbatim>\<open>D1\<close> that the builder returns on \<open>duplicate_rows\<close>.\<close>

theorem serviceable_demand_zero_or_full_witness:
  "(serviceableDemand duplicate_obj = 0 \<or> serviceableDemand duplicate_obj = demand duplicate_obj) \<and>
   serviceableDemand duplicate_obj =
     (if \<exists>row\<in>set duplicate_rows. map_of row ''demand_id'' = Some ''D1'' \<and>
           within_threshold example_float ''distance'' 5000 row
      then demand duplicate_obj else 0)"
  using serviceable_demand_zero_or_full
          [OF build_duplicate[unfolded build_default_def], of "''D1''" duplicate_obj]
  by (simp add: duplicate_coverage_def)

text \<open>
  Claim C7. Every demand id that appears in a row is a key of the returned demand mapping
  exactly once, and no other key appears: the number of entries with the key \<open>d\<close> is \<open>1\<close>
  when some row has the demand id \<open>d\<close>, and \<open>0\<close> otherwise.
\<close>

theorem demand_key_exactly_once:
  assumes "generate_binary_coverage_from_dist_matrix pyfloat rows thr dl fl df xf arg = Inr m"
  shows "length (filter (\<lambda>kv. fst kv = d) (demand_dict m)) =
           (if \<exists>row\<in>set rows. map_of row dl = Some d then 1 else 0)"
  using distinct_count_key[OF generate_keys(1)[OF assms], of d] generate_keys(2)[OF assms]
  by simp

text \<open>The theorem on the rows of the specification's example, for the demand id \<^verbatim>\<open>D1\<close>.\<close>

theorem demand_key_exactly_once_witness:
  "length (filter (\<lambda>kv. fst kv = ''D1'') (demand_dict example_coverage)) =
     (if \<exists>row\<in>set example_rows. map_of row ''demand_id'' = Some ''D1'' then 1 else 0)"
  using demand_key_exactly_once[OF build_example[unfolded build_default_def], of "''D1''"]
  by simp

text \<open>
  Claim C8, as amended. On the rows \<^verbatim>\<open>[(F1,D1,10,4000),(F2,D1,10,6000),(F1,D2,5,4000)]\<close>
  with threshold \<open>5000\<close> the builder returns \<open>example_coverage\<close>: \<^verbatim>\<open>D1\<close> with demand
  \<open>10\<close>, serviceable demand \<open>10\<close> and coverage \<^verbatim>\<open>{F1}\<close>, \<^verbatim>\<open>D2\<close> with demand \<open>5\<close>,
  serviceable demand \<open>5\<close> and coverage \<^verbatim>\<open>{F1}\<close>, and both totals \<open>15\<close>. Against it the
  chosen set \<^verbatim>\<open>{F1}\<close> covers the demand \<open>15\<close>, which is 100 percent, and the chosen set
  \<^verbatim>\<open>{F2}\<close> covers the demand \<open>0\<close>, which is 0 percent: \<^verbatim>\<open>F2\<close> is at distance \<open>6000\<close>
  from \<^verbatim>\<open>D1\<close>, beyond the threshold, and is in no coverage.
\<close>

theorem specification_example:
  "build_default example_rows 5000 = Inr example_coverage \<and>
   covered_loop {''F1''} (demand_dict example_coverage) 0 = Inr 15 \<and>
   result_summary [''F1''] example_coverage 1 =
     Inr \<lparr>number_facility = 1, number_facility_chosen = 1, set_facility_id_chosen = {''F1''},
          total_demand = 15, percent_demand_coverage = 100\<rparr> \<and>
   covered_loop {''F2''} (demand_dict example_coverage) 0 = Inr 0 \<and>
   result_summary [''F2''] example_coverage 1 =
     Inr \<lparr>number_facility = 1, number_facility_chosen = 1, set_facility_id_chosen = {''F2''},
          total_demand = 15, percent_demand_coverage = 0\<rparr>"
proof -
  have "covered_loop {''F1''} (demand_dict example_coverage) 0 = Inr 15"
       "covered_loop {''F2''} (demand_dict example_coverage) 0 = Inr 0"
    by (simp_all add: example_coverage_def getitem_def)
  moreover have "result_summary [''F1''] example_coverage 1 =
     Inr \<lparr>number_facility = 1, number_facility_chosen = 1, set_facility_id_chosen = {''F1''},
          total_demand = 15, percent_demand_coverage = 100\<rparr>"
    by (simp add: result_summary_def example_coverage_def getitem_def py_div_def)
  moreover have "result_summary [''F2''] example_coverage 1 =
     Inr \<lparr>number_facility = 1, number_facility_chosen = 1, set_facility_id_chosen = {''F2''},
          total_demand = 15, percent_demand_coverage = 0\<rparr>"
    by (simp add: result_summary_def example_coverage_def getitem_def py_div_def)
  ultimately show ?thesis using build_example by simp
qed

text \<open>
  The claim's last part fails: the chosen set \<^verbatim>\<open>{F2}\<close> does not cover the demand \<open>10\<close>,
  and the percentage is not \<open>100 * 10 / 15\<close>.
\<close>

theorem specification_example_counterexample:
  "build_default example_rows 5000 = Inr example_coverage \<and>
   covered_loop {''F2''} (demand_dict example_coverage) 0 \<noteq> Inr 10 \<and>
   result_summary [''F2''] example_coverage 1 \<noteq>
     Inr \<lparr>number_facility = 1, number_facility_chosen = 1, set_facility_id_chosen = {''F2''},
          total_demand = 15, percent_demand_coverage = 100 * 10 / 15\<rparr>"
proof -
  have "covered_loop {''F2''} (demand_dict example_coverage) 0 \<noteq> Inr 10"
    by (simp add: example_coverage_def getitem_def)
  moreover have "result_summary [''F2''] example_coverage 1 \<noteq>
     Inr \<lparr>number_facility = 1, number_facility_chosen = 1, set_facility_id_chosen = {''F2''},
          total_demand = 15, percent_demand_coverage = 100 * 10 / 15\<rparr>"
    by (simp add: result_summary_def example_coverage_def getitem_def py_div_def)
  ultimately show ?thesis using build_example by simp
qed

text \<open>
  Claim C9. When a required field is not a key of the sample row, the row at index 1, the
  function prints the error message for a missing field and raises \<open>SystemExit 0\<close>,
  the exit status of a success. The outcome does not depend on the solver or on
  \<open>float\<close>: no coverage object is built.
\<close>

theorem missing_field_exits:
  assumes "1 < length rows"
      and "\<exists>field\<in>set req. field \<notin> fst ` set (rows ! 1)"
  shows "\<exists>field\<in>set req. field \<notin> fst ` set (rows ! 1) \<and>
           binary_mclp_distance_matrix pyfloat solve rows thr n req nm =
             ([''Error: this field '' @ field @ '' not found in the distance csv''],
              Inl (SystemExit 0))"
proof -
  from missing_field_Some[OF assms(2)] obtain field where
    f: "field \<in> set req" "field \<notin> fst ` set (rows ! 1)"
       "missing_field req (rows ! 1) = Some field"
    by blast
  from assms(1) f(3) have
    "binary_mclp_distance_matrix pyfloat solve rows thr n req nm =
       ([''Error: this field '' @ field @ '' not found in the distance csv''],
        Inl (SystemExit 0))"
    by (simp add: binary_mclp_distance_matrix_def list_index_def)
  with f(1,2) show ?thesis by blast
qed

text \<open>The theorem on two rows of a file without the \<^verbatim>\<open>distance\<close> column.\<close>

theorem missing_field_exits_witness:
  "binary_mclp_distance_matrix example_float solve_F1 no_distance_rows 5000 1
     list_field_req_default ''facility'' =
     ([''Error: this field distance not found in the distance csv''], Inl (SystemExit 0))"
  using missing_field_exits[of no_distance_rows list_field_req_default example_float solve_F1 5000 1 "''facility''"]
  by (auto simp: no_distance_rows_def list_field_req_default_def)

text \<open>
  Claim C10. The sample row is the row at index 1, so on fewer than two rows the function
  raises \<open>IndexError\<close> before any field check, and prints nothing, whatever the columns
  of the file.
\<close>

theorem short_row_list_raises_index_error:
  assumes "length rows < 2"
  shows "binary_mclp_distance_matrix pyfloat solve rows thr n req nm = ([], Inl IndexError)"
  using assms by (simp add: binary_mclp_distance_matrix_def list_index_def)

text \<open>The theorem on no row, and on one row that has all the required fields.\<close>

theorem short_row_list_raises_index_error_witness:
  "binary_mclp_distance_matrix example_float solve_F1 [] 5000 1 list_field_req_default
     ''facility'' = ([], Inl IndexError) \<and>
   binary_mclp_distance_matrix example_float solve_F1 [csv_record ''F1'' ''D1'' ''10'' ''4000'']
     5000 1 list_field_req_default ''facility'' = ([], Inl IndexError)"
  using short_row_list_raises_index_error[of "[]" example_float solve_F1 5000 1 list_field_req_default "''facility''"]
        short_row_list_raises_index_error[of "[csv_record ''F1'' ''D1'' ''10'' ''4000'']" example_float solve_F1 5000 1
            list_field_req_default "''facility''"]
  by simp

end
